theory Spec2Isabelle
  imports Main "HOL-Library.Sublist"
begin

section \<open>Python values and the outside world\<close>

text \<open>
  The script \<^verbatim>\<open>scripts/generate_llm_tags.py\<close> reads one post, asks a language model for
  tags and rewrites the YAML front matter. Text is a \<^typ>\<open>string\<close>: one \<^typ>\<open>char\<close> per
  code point, so the model covers texts whose code points are below 256. Offsets count
  code points, as Python's \<^verbatim>\<open>str\<close> indices do. A file holds the text that \<^verbatim>\<open>read()\<close>
  returns and \<^verbatim>\<open>write()\<close> takes. Messages printed to the console are left out.

  Exceptions the script does not catch end the process; they are values of the
  error type below.
\<close>

datatype py_error = FileNotFoundError | YAMLError | TypeError | KeyError

text \<open>
  What \<^verbatim>\<open>yaml.safe_load\<close> can return (floats, timestamps and binary data are left out).
  A Python dict keeps insertion order, so a mapping is an association list.
\<close>

datatype yaml =
    YNull
  | YBool bool
  | YInt int
  | YStr string
  | YSeq "yaml list"
  | YMap "(yaml \<times> yaml) list"

text \<open>Python truthiness: \<^verbatim>\<open>not x\<close> is \<open>\<not> truthy x\<close>.\<close>

fun truthy :: "yaml \<Rightarrow> bool" where
  "truthy YNull = False"
| "truthy (YBool b) = b"
| "truthy (YInt i) = (i \<noteq> 0)"
| "truthy (YStr s) = (s \<noteq> [])"
| "truthy (YSeq xs) = (xs \<noteq> [])"
| "truthy (YMap kvs) = (kvs \<noteq> [])"

text \<open>\<open>find_sub pat s\<close> is Python's \<^verbatim>\<open>s.find(pat)\<close>: the first index where \<open>pat\<close> occurs.\<close>

fun find_sub :: "string \<Rightarrow> string \<Rightarrow> nat option" where
  "find_sub pat [] = (if pat = [] then Some 0 else None)"
| "find_sub pat (c # cs) =
     (if prefix pat (c # cs) then Some 0 else map_option Suc (find_sub pat cs))"

text \<open>
  \<^verbatim>\<open>key in x\<close>: key membership for a dict, element membership for a list, substring
  test for a string; the other values are not iterable.
\<close>

fun py_contains :: "yaml \<Rightarrow> string \<Rightarrow> py_error + bool" where
  "py_contains (YMap kvs) key = Inr (YStr key \<in> set (map fst kvs))"
| "py_contains (YSeq xs) key = Inr (YStr key \<in> set xs)"
| "py_contains (YStr s) key = Inr (find_sub key s \<noteq> None)"
| "py_contains _ key = Inl TypeError"

text \<open>\<^verbatim>\<open>x[key]\<close> with a string key, evaluated only after \<^verbatim>\<open>key in x\<close> held.\<close>

fun py_getitem :: "yaml \<Rightarrow> string \<Rightarrow> py_error + yaml" where
  "py_getitem (YMap kvs) key =
     (case map_of kvs (YStr key) of Some v \<Rightarrow> Inr v | None \<Rightarrow> Inl KeyError)"
| "py_getitem _ key = Inl TypeError"

text \<open>
  \<^verbatim>\<open>d[key] = v\<close> on a dict: an existing key keeps its position and gets the new value, a
  new key is appended.
\<close>

fun dict_setitem :: "(yaml \<times> yaml) list \<Rightarrow> yaml \<Rightarrow> yaml \<Rightarrow> (yaml \<times> yaml) list" where
  "dict_setitem [] k v = [(k, v)]"
| "dict_setitem ((k', v') # kvs) k v =
     (if k' = k then (k, v) # kvs else (k', v') # dict_setitem kvs k v)"

fun py_setitem :: "yaml \<Rightarrow> string \<Rightarrow> yaml \<Rightarrow> py_error + yaml" where
  "py_setitem (YMap kvs) key v = Inr (YMap (dict_setitem kvs (YStr key) v))"
| "py_setitem _ key v = Inl TypeError"

text \<open>
  The world the script acts on: the files (path to text) and the log of what the run
  did to the outside: each \<^verbatim>\<open>open\<close> for reading or writing and each request to the
  language model, in order.
\<close>

datatype event = OpenRead string | OpenWrite string | Generate string

record world =
  files :: "string \<Rightarrow> string option"
  trace :: "event list"

definition emit :: "event \<Rightarrow> world \<Rightarrow> world" where
  "emit e w = w\<lparr>trace := trace w @ [e]\<rparr>"

fun is_write :: "event \<Rightarrow> bool" where
  "is_write (OpenWrite p) = True"
| "is_write _ = False"

fun is_generate :: "event \<Rightarrow> bool" where
  "is_generate (Generate p) = True"
| "is_generate _ = False"

definition writes :: "world \<Rightarrow> nat" where
  "writes w = length (filter is_write (trace w))"

definition llm_calls :: "world \<Rightarrow> nat" where
  "llm_calls w = length (filter is_generate (trace w))"

text \<open>
  PyYAML and the Gemini client are libraries outside the repository: they are
  parameters. \<^verbatim>\<open>yaml.safe_load\<close> returns a value or raises; \<^verbatim>\<open>yaml.dump\<close> takes the
  \<^verbatim>\<open>sort_keys\<close> flag and the value; the client answers a prompt.
\<close>

type_synonym loader = "string \<Rightarrow> py_error + yaml"
type_synonym dumper = "bool \<Rightarrow> yaml \<Rightarrow> string"

datatype llm_response = Response string | NoText | APIError | OtherException

type_synonym generator = "string \<Rightarrow> llm_response"

record environ =
  POST_TO_PROCESS :: "string option"
  GEMINI_API_KEY :: "string option"

definition GENERATED_TAGS_KEY :: string where
  "GENERATED_TAGS_KEY = ''llm_tags''"

section \<open>get_post_content\<close>

text \<open>
  \<^verbatim>\<open>re.search(r'^---\n(.*?)\n---', content, re.DOTALL | re.MULTILINE)\<close>.
  The search tries each start position from the left. Under MULTILINE \<^verbatim>\<open>^\<close> holds at
  offset 0 and after every newline (the flag \<open>bol\<close>); under DOTALL the lazy group takes
  the fewest characters, newlines included, that let \<^verbatim>\<open>\n---\<close> follow. The result is
  group 1 and the offset where the match ends.
\<close>

fun front_matter_search :: "bool \<Rightarrow> string \<Rightarrow> (string \<times> nat) option" where
  "front_matter_search bol [] = None"
| "front_matter_search bol (c # cs) =
     (case (if bol \<and> prefix ''---\<newline>'' (c # cs)
            then find_sub ''\<newline>---'' (drop 4 (c # cs)) else None) of
        Some k \<Rightarrow> Some (take k (drop 4 (c # cs)), 4 + k + 4)
      | None \<Rightarrow>
          map_option (\<lambda>(g, e). (g, Suc e)) (front_matter_search (c = CHR 0x0A) cs))"

definition re_search :: "string \<Rightarrow> (string \<times> nat) option" where
  "re_search content = front_matter_search True content"

text \<open>
  The result is \<open>Inr None\<close> for the triple \<^verbatim>\<open>(None, None, None)\<close>, \<open>Inl e\<close> when
  \<^verbatim>\<open>yaml.safe_load\<close> raises.
\<close>

definition get_post_content ::
  "loader \<Rightarrow> string \<Rightarrow> world \<Rightarrow> (py_error + (yaml \<times> string \<times> nat) option) \<times> world" where
  "get_post_content safe_load file_path w =
     (let w1 = emit (OpenRead file_path) w in
      case files w file_path of
        None \<Rightarrow> (Inr None, w1)
      | Some content \<Rightarrow>
          (case re_search content of
             None \<Rightarrow> (Inr None, w1)
           | Some (front_matter_str, body_start_index) \<Rightarrow>
               (case safe_load front_matter_str of
                  Inl e \<Rightarrow> (Inl e, w1)
                | Inr front_matter_data \<Rightarrow>
                    (Inr (Some (front_matter_data,
                                drop body_start_index content,
                                body_start_index)), w1))))"

section \<open>call_llm_for_tags\<close>

text \<open>\<^verbatim>\<open>str.isspace\<close> on code points below 256, and \<^verbatim>\<open>str.strip()\<close>.\<close>

definition py_isspace :: "char \<Rightarrow> bool" where
  "py_isspace c =
     (let n = (of_char c :: nat)
      in (9 \<le> n \<and> n \<le> 13) \<or> (28 \<le> n \<and> n \<le> 32) \<or> n = 133 \<or> n = 160)"

definition strip :: "string \<Rightarrow> string" where
  "strip s = rev (dropWhile py_isspace (rev (dropWhile py_isspace s)))"

text \<open>\<^verbatim>\<open>s.split(',')\<close>: the pieces between the separators, never an empty list.\<close>

fun split_on :: "char \<Rightarrow> string \<Rightarrow> string list" where
  "split_on sep [] = [[]]"
| "split_on sep (c # cs) =
     (if c = sep then [] # split_on sep cs
      else (case split_on sep cs of
              p # ps \<Rightarrow> (c # p) # ps
            | [] \<Rightarrow> [[c]]))"

text \<open>\<^verbatim>\<open>.replace('"', '').replace("'", '')\<close>.\<close>

definition remove_quotes :: "string \<Rightarrow> string" where
  "remove_quotes s = filter (\<lambda>c. c \<noteq> CHR 0x27) (filter (\<lambda>c. c \<noteq> CHR 0x22) s)"

definition prompt :: "string \<Rightarrow> string" where
  "prompt content =
     ''Analyze the following blog post content written in ENGLISH. Generate 5 high-value, '' @
     ''niche, and recruitment-friendly technical tags (keywords) in **ENGLISH** '' @
     ''that best summarize the topic and skills demonstrated. Return ONLY the 5 tags '' @
     ''separated by commas, with NO other surrounding text, punctuation, or explanation.'' @
     ''Content (first 2000 chars): '' @ take 2000 content"

text \<open>Lines 54 to 64: from the response text to the tag list, or None.\<close>

definition tags_of_text :: "string \<Rightarrow> string list option" where
  "tags_of_text text =
     (let tags_text = remove_quotes (strip text);
          tags_list = map strip (filter (\<lambda>tag. strip tag \<noteq> []) (split_on CHR '','' tags_text))
      in if tags_list = [] then None else Some tags_list)"

text \<open>
  Two readings of the tag list, piece by piece. In both the response is split on commas,
  empty pieces are discarded and no piece left is the failure value. They differ in what
  happens to a piece. \<open>claimed_piece\<close> follows the words of the specification in their
  order: the piece is trimmed, then stripped of its quote characters.
  \<open>clean_piece\<close> is the other order: the quote characters go first, then the piece is
  trimmed.
\<close>

definition claimed_piece :: "string \<Rightarrow> string" where
  "claimed_piece piece = remove_quotes (strip piece)"

definition claimed_tag_list :: "string \<Rightarrow> string list option" where
  "claimed_tag_list text =
     (let tags = filter (\<lambda>tag. tag \<noteq> []) (map claimed_piece (split_on CHR '','' text))
      in if tags = [] then None else Some tags)"

definition clean_piece :: "string \<Rightarrow> string" where
  "clean_piece piece = strip (remove_quotes piece)"

definition tag_list_by_pieces :: "string \<Rightarrow> string list option" where
  "tag_list_by_pieces text =
     (let tags = filter (\<lambda>tag. tag \<noteq> []) (map clean_piece (split_on CHR '','' text))
      in if tags = [] then None else Some tags)"

text \<open>
  Every exception inside the \<^verbatim>\<open>try\<close> is caught and turned into None; a response
  without text raises on \<^verbatim>\<open>.strip()\<close> and ends there too.
\<close>

definition call_llm_for_tags :: "generator \<Rightarrow> string \<Rightarrow> world \<Rightarrow> string list option \<times> world" where
  "call_llm_for_tags client content w =
     (let w1 = emit (Generate (prompt content)) w in
      case client (prompt content) of
        Response text \<Rightarrow> (tags_of_text text, w1)
      | NoText \<Rightarrow> (None, w1)
      | APIError \<Rightarrow> (None, w1)
      | OtherException \<Rightarrow> (None, w1))"

text \<open>What \<open>call_llm_for_tags\<close> returns, apart from the request it makes.\<close>

definition returned_tags :: "generator \<Rightarrow> string \<Rightarrow> string list option" where
  "returned_tags client content =
     (case client (prompt content) of Response text \<Rightarrow> tags_of_text text | _ \<Rightarrow> None)"

section \<open>update_post\<close>

definition update_post ::
  "dumper \<Rightarrow> string \<Rightarrow> string list \<Rightarrow> yaml \<Rightarrow> nat \<Rightarrow> world \<Rightarrow> (py_error + unit) \<times> world" where
  "update_post yaml_dump file_path new_tags front_matter_data body_start_index w =
     (case py_setitem front_matter_data GENERATED_TAGS_KEY (YSeq (map YStr new_tags)) of
        Inl e \<Rightarrow> (Inl e, w)
      | Inr updated \<Rightarrow>
          (let new_front_matter_str = yaml_dump False updated;
               w1 = emit (OpenRead file_path) w
           in case files w file_path of
                None \<Rightarrow> (Inl FileNotFoundError, w1)
              | Some original_content \<Rightarrow>
                  (let body_content = drop body_start_index original_content;
                       new_content = ''---\<newline>'' @ new_front_matter_str @ ''---\<newline>'' @ body_content;
                       w2 = emit (OpenWrite file_path) w1
                   in (Inr (), w2\<lparr>files := (files w2)(file_path \<mapsto> new_content)\<rparr>))))"

section \<open>The script's main block\<close>

text \<open>
  How the process ends: \<^verbatim>\<open>sys.exit(n)\<close> or falling off the end (\<open>Exit\<close>), or an
  exception nobody caught, which the interpreter reports with exit status 1.
\<close>

datatype outcome = Exit nat | Uncaught py_error

fun exit_status :: "outcome \<Rightarrow> nat" where
  "exit_status (Exit n) = n"
| "exit_status (Uncaught e) = 1"

text \<open>\<^verbatim>\<open>not s\<close> for what \<^verbatim>\<open>os.environ.get\<close> returns.\<close>

fun unset :: "string option \<Rightarrow> bool" where
  "unset None = True"
| "unset (Some s) = (s = [])"

text \<open>
  Line 115: \<^verbatim>\<open>GENERATED_TAGS_KEY in front_matter and front_matter[GENERATED_TAGS_KEY] is not None\<close>.
\<close>

definition has_tags :: "yaml \<Rightarrow> py_error + bool" where
  "has_tags front_matter =
     (case py_contains front_matter GENERATED_TAGS_KEY of
        Inl e \<Rightarrow> Inl e
      | Inr False \<Rightarrow> Inr False
      | Inr True \<Rightarrow>
          (case py_getitem front_matter GENERATED_TAGS_KEY of
             Inl e \<Rightarrow> Inl e
           | Inr v \<Rightarrow> Inr (v \<noteq> YNull)))"

definition main :: "loader \<Rightarrow> dumper \<Rightarrow> generator \<Rightarrow> environ \<Rightarrow> world \<Rightarrow> outcome \<times> world" where
  "main safe_load yaml_dump client env w =
     (case POST_TO_PROCESS env of
        None \<Rightarrow> (Exit 0, w)
      | Some file_to_process \<Rightarrow>
          if file_to_process = [] \<or> file_to_process = ''[]'' then (Exit 0, w)
          else if unset (GEMINI_API_KEY env) then (Exit 1, w)
          else
            (case get_post_content safe_load file_to_process w of
               (Inl e, w1) \<Rightarrow> (Uncaught e, w1)
             | (Inr None, w1) \<Rightarrow> (Exit 1, w1)
             | (Inr (Some (front_matter, content, body_start)), w1) \<Rightarrow>
                 if \<not> truthy front_matter \<or> content = [] then (Exit 1, w1)
                 else
                   (case has_tags front_matter of
                      Inl e \<Rightarrow> (Uncaught e, w1)
                    | Inr True \<Rightarrow> (Exit 0, w1)
                    | Inr False \<Rightarrow>
                        (case call_llm_for_tags client content w1 of
                           (None, w2) \<Rightarrow> (Exit 0, w2)
                         | (Some llm_tags, w2) \<Rightarrow>
                             if llm_tags = [] then (Exit 0, w2)
                             else
                               (case update_post yaml_dump file_to_process llm_tags
                                       front_matter body_start w2 of
                                  (Inl e, w3) \<Rightarrow> (Uncaught e, w3)
                                | (Inr u, w3) \<Rightarrow> (Exit 0, w3))))))"

section \<open>A worked example\<close>

text \<open>
  The post \<^verbatim>\<open>---\ntitle: Hello\n---\nBody text.\<close> and the tags go, rust, cli. For the
  two libraries the example needs only what PyYAML gives on the texts and mappings that
  occur: \<^verbatim>\<open>yaml.safe_load('title: Hello')\<close> is \<^verbatim>\<open>{'title': 'Hello'}\<close>, and
  \<^verbatim>\<open>yaml.dump({'title': 'Hello', 'llm_tags': ['go', 'rust', 'cli']}, sort_keys=False)\<close> is
  \<^verbatim>\<open>'title: Hello\nllm_tags:\n- go\n- rust\n- cli\n'\<close>.
\<close>

definition hello_meta :: "(yaml \<times> yaml) list" where
  "hello_meta = [(YStr ''title'', YStr ''Hello'')]"

definition hello_tagged :: "(yaml \<times> yaml) list" where
  "hello_tagged =
     [(YStr ''title'', YStr ''Hello''),
      (YStr ''llm_tags'', YSeq [YStr ''go'', YStr ''rust'', YStr ''cli''])]"

definition hello_load :: loader where
  "hello_load s =
     (if s = ''title: Hello'' then Inr (YMap hello_meta)
      else if s = ''title: Hello\<newline>llm_tags:\<newline>- go\<newline>- rust\<newline>- cli''
        then Inr (YMap hello_tagged)
      else Inl YAMLError)"

definition hello_dump :: dumper where
  "hello_dump sort_keys v =
     (if v = YMap hello_tagged
        then ''title: Hello\<newline>llm_tags:\<newline>- go\<newline>- rust\<newline>- cli\<newline>''
      else if v = YMap hello_meta then ''title: Hello\<newline>''
      else [])"

definition hello_client :: generator where
  "hello_client p = Response ''go, rust, cli''"

definition failing_client :: generator where
  "failing_client p = APIError"

definition hello_env :: environ where
  "hello_env = \<lparr>POST_TO_PROCESS = Some ''post.md'', GEMINI_API_KEY = Some ''secret''\<rparr>"

definition world_with :: "string \<Rightarrow> world" where
  "world_with content = \<lparr>files = [''post.md'' \<mapsto> content], trace = []\<rparr>"

definition hello_post :: string where
  "hello_post = ''---\<newline>title: Hello\<newline>---\<newline>Body text.''"

definition empty_body_post :: string where
  "empty_body_post = ''---\<newline>title: Hello\<newline>---''"


text \<open>
  Two responses with quote characters: \<^verbatim>\<open>' a '\<close>, and
  \<^verbatim>\<open>"go", ' rust ',cli\<close>.
\<close>

definition spaced_response :: string where
  "spaced_response = [CHR 0x27, CHR '' '', CHR ''a'', CHR '' '', CHR 0x27]"

definition quoted_response :: string where
  "quoted_response =
     [CHR 0x22] @ ''go'' @ [CHR 0x22] @ '', '' @ [CHR 0x27] @ '' rust '' @ [CHR 0x27] @ '',cli''"

definition spaced_client :: generator where
  "spaced_client p = Response spaced_response"

definition quoted_client :: generator where
  "quoted_client p = Response quoted_response"

text \<open>
  A post with two keys, and what PyYAML writes with \<^verbatim>\<open>sort_keys=False\<close> (the only flag
  the script passes) for a mapping from plain strings to plain strings or lists of them:
  one entry after the other, \<^verbatim>\<open>key: value\<close> or \<^verbatim>\<open>key:\<close> followed by one \<^verbatim>\<open>- item\<close> line per
  element.
\<close>

fun plain_item :: "yaml \<Rightarrow> string" where
  "plain_item (YStr s) = ''- '' @ s @ ''\<newline>''"
| "plain_item _ = []"

fun plain_entry :: "yaml \<times> yaml \<Rightarrow> string" where
  "plain_entry (YStr k, YStr v) = k @ '': '' @ v @ ''\<newline>''"
| "plain_entry (YStr k, YSeq xs) = k @ '':\<newline>'' @ concat (map plain_item xs)"
| "plain_entry _ = []"

definition plain_dump :: dumper where
  "plain_dump sort_keys v = (case v of YMap kvs \<Rightarrow> concat (map plain_entry kvs) | _ \<Rightarrow> [])"

definition two_key_meta :: "(yaml \<times> yaml) list" where
  "two_key_meta = [(YStr ''title'', YStr ''Hello''), (YStr ''author'', YStr ''Ann'')]"

definition two_key_post :: string where
  "two_key_post = ''---\<newline>title: Hello\<newline>author: Ann\<newline>---\<newline>Body text.''"

definition late_block_post :: string where
  "late_block_post = ''intro\<newline>---\<newline>title: Hello\<newline>---\<newline>Body text.''"

section \<open>Effects of the three functions\<close>

lemma files_emit [simp]: "files (emit e w) = files w"
  by (simp add: emit_def)

lemma trace_emit [simp]: "trace (emit e w) = trace w @ [e]"
  by (simp add: emit_def)

lemma writes_emit [simp]: "writes (emit e w) = (if is_write e then Suc (writes w) else writes w)"
  by (simp add: writes_def)

lemma llm_calls_emit [simp]:
  "llm_calls (emit e w) = (if is_generate e then Suc (llm_calls w) else llm_calls w)"
  by (simp add: llm_calls_def)

lemma writes_files_update [simp]: "writes (w\<lparr>files := f\<rparr>) = writes w"
  by (simp add: writes_def)

lemma llm_calls_files_update [simp]: "llm_calls (w\<lparr>files := f\<rparr>) = llm_calls w"
  by (simp add: llm_calls_def)

lemma get_post_content_world: "snd (get_post_content l p w) = emit (OpenRead p) w"
  by (simp add: get_post_content_def Let_def split: option.splits sum.splits prod.splits)

lemma get_post_content_Some:
  assumes "fst (get_post_content l p w) = Inr (Some (fm, body, i))"
  shows "\<exists>content s. files w p = Some content \<and> re_search content = Some (s, i)
           \<and> l s = Inr fm \<and> body = drop i content"
  using assms
  by (auto simp: get_post_content_def Let_def split: option.splits sum.splits prod.splits)

lemma call_llm_for_tags_eq:
  "call_llm_for_tags c body w = (returned_tags c body, emit (Generate (prompt body)) w)"
  by (simp add: call_llm_for_tags_def returned_tags_def Let_def split: llm_response.splits)

lemma update_post_cases:
  "(\<exists>e. update_post d p tags fm i w = (Inl e, w)) \<or>
   (\<exists>e. update_post d p tags fm i w = (Inl e, emit (OpenRead p) w)) \<or>
   (\<exists>new. update_post d p tags fm i w =
      (Inr (), (emit (OpenWrite p) (emit (OpenRead p) w))\<lparr>files := (files w)(p \<mapsto> new)\<rparr>))"
  by (auto simp: update_post_def Let_def split: sum.splits option.splits)

lemma has_tags_mapping: "\<exists>b. has_tags (YMap m) = Inr b"
proof (cases "YStr GENERATED_TAGS_KEY \<in> set (map fst m)")
  case True
  then obtain v where "map_of m (YStr GENERATED_TAGS_KEY) = Some v"
    by (metis map_of_eq_None_iff not_Some_eq set_map)
  then show ?thesis using True by (simp add: has_tags_def)
next
  case False
  then show ?thesis by (auto simp: has_tags_def)
qed

lemma update_post_mapping:
  assumes "files w p = Some content"
  shows "fst (update_post d p tags (YMap m) i w) = Inr ()"
  using assms by (simp add: update_post_def Let_def)

text \<open>The main block once a target file and a credential are there.\<close>

lemma main_eq:
  assumes "POST_TO_PROCESS env = Some p" "p \<noteq> []" "p \<noteq> ''[]''" "\<not> unset (GEMINI_API_KEY env)"
  shows "main l d c env w =
    (case fst (get_post_content l p w) of
       Inl e \<Rightarrow> (Uncaught e, emit (OpenRead p) w)
     | Inr None \<Rightarrow> (Exit 1, emit (OpenRead p) w)
     | Inr (Some (fm, body, i)) \<Rightarrow>
         if \<not> truthy fm \<or> body = [] then (Exit 1, emit (OpenRead p) w)
         else
           (case has_tags fm of
              Inl e \<Rightarrow> (Uncaught e, emit (OpenRead p) w)
            | Inr True \<Rightarrow> (Exit 0, emit (OpenRead p) w)
            | Inr False \<Rightarrow>
                (case returned_tags c body of
                   None \<Rightarrow> (Exit 0, emit (Generate (prompt body)) (emit (OpenRead p) w))
                 | Some tags \<Rightarrow>
                     if tags = [] then (Exit 0, emit (Generate (prompt body)) (emit (OpenRead p) w))
                     else
                       (case update_post d p tags fm i
                               (emit (Generate (prompt body)) (emit (OpenRead p) w)) of
                          (Inl e, w3) \<Rightarrow> (Uncaught e, w3)
                        | (Inr u, w3) \<Rightarrow> (Exit 0, w3)))))"
proof -
  obtain r w1 where g: "get_post_content l p w = (r, w1)"
    by (cases "get_post_content l p w")
  have w1: "w1 = emit (OpenRead p) w"
    using get_post_content_world[of l p w] g by simp
  show ?thesis
    using assms g
    by (auto simp: main_def call_llm_for_tags_eq w1
             split: sum.splits option.splits prod.splits bool.splits)
qed

section \<open>The search for the front matter\<close>

lemma dict_setitem_new:
  "k \<notin> set (map fst m) \<Longrightarrow> dict_setitem m k v = m @ [(k, v)]"
  by (induction m) auto

lemma find_sub_closing:
  "find_sub ''\<newline>---'' s = None \<Longrightarrow>
     find_sub ''\<newline>---'' (s @ ''\<newline>---'' @ rest) = Some (length s)"
proof (induction s)
  case Nil
  show ?case by simp
next
  case (Cons c cs)
  from Cons.prems have np: "\<not> prefix ''\<newline>---'' (c # cs)"
    and none: "find_sub ''\<newline>---'' cs = None"
    by (auto split: if_splits)
  have "\<not> prefix ''\<newline>---'' (c # cs @ ''\<newline>---'' @ rest)"
  proof (cases cs)
    case Nil
    then show ?thesis by simp
  next
    case c1: (Cons a as)
    show ?thesis
    proof (cases as)
      case Nil
      then show ?thesis using c1 by simp
    next
      case c2: (Cons b bs)
      show ?thesis
      proof (cases bs)
        case Nil
        then show ?thesis using c1 c2 by simp
      next
        case (Cons d ds)
        then show ?thesis using c1 c2 np by simp
      qed
    qed
  qed
  then show ?case using Cons.IH [OF none] by simp
qed

lemma re_search_block:
  assumes "find_sub ''\<newline>---'' s = None"
  shows "re_search (''---\<newline>'' @ s @ ''\<newline>---'' @ rest) = Some (s, length s + 8)"
  using find_sub_closing [OF assms, of rest] by (simp add: re_search_def)

lemma front_matter_search_skip_line:
  assumes "CHR 0x0A \<notin> set intro"
    and "\<not> (bol \<and> prefix ''---\<newline>'' (intro @ CHR 0x0A # doc))"
  shows "front_matter_search bol (intro @ CHR 0x0A # doc) =
           map_option (\<lambda>(g, e). (g, e + length intro + 1)) (front_matter_search True doc)"
  using assms
proof (induction intro arbitrary: bol)
  case Nil
  have "map_option (\<lambda>(g, e). (g, Suc e)) x = map_option (\<lambda>(g, e). (g, e + 1)) x" for x :: "(string \<times> nat) option"
    by (cases x) auto
  then show ?case by simp
next
  case (Cons c cs)
  have "front_matter_search False (cs @ CHR 0x0A # doc) =
          map_option (\<lambda>(g, e). (g, e + length cs + 1)) (front_matter_search True doc)"
    using Cons.IH [of False] Cons.prems by simp
  moreover have "front_matter_search bol ((c # cs) @ CHR 0x0A # doc) =
      map_option (\<lambda>(g, e). (g, Suc e)) (front_matter_search False (cs @ CHR 0x0A # doc))"
    using Cons.prems by auto
  ultimately show ?case
    by (cases "front_matter_search True doc") auto
qed

lemma prefix_delim_line:
  assumes "CHR 0x0A \<notin> set intro" and "prefix ''---\<newline>'' (intro @ CHR 0x0A # doc)"
  shows "intro = ''---''"
proof (cases intro)
  case Nil
  then show ?thesis using assms by simp
next
  case c1: (Cons a as)
  show ?thesis
  proof (cases as)
    case Nil
    then show ?thesis using assms c1 by simp
  next
    case c2: (Cons b bs)
    show ?thesis
    proof (cases bs)
      case Nil
      then show ?thesis using assms c1 c2 by simp
    next
      case c3: (Cons d ds)
      show ?thesis
      proof (cases ds)
        case Nil
        then show ?thesis using assms c1 c2 c3 by auto
      next
        case (Cons e es)
        then show ?thesis using assms c1 c2 c3 by auto
      qed
    qed
  qed
qed

lemma re_search_skip_line:
  assumes "CHR 0x0A \<notin> set intro" and "intro \<noteq> ''---''"
  shows "re_search (intro @ CHR 0x0A # doc) =
           map_option (\<lambda>(g, e). (g, e + length intro + 1)) (re_search doc)"
  unfolding re_search_def
  using assms prefix_delim_line [of intro doc]
  by (intro front_matter_search_skip_line) auto



lemma update_post_file:
  assumes "files w p = Some content"
  shows "update_post d p tags (YMap m) i w =
     (Inr (),
      (emit (OpenWrite p) (emit (OpenRead p) w))\<lparr>files := (files w)(p \<mapsto>
         ''---\<newline>'' @ d False (YMap (dict_setitem m (YStr GENERATED_TAGS_KEY) (YSeq (map YStr tags))))
           @ ''---\<newline>'' @ drop i content)\<rparr>)"
  using assms by (simp add: update_post_def Let_def)

lemma split_rewritten:
  assumes "files w p = Some (''---\<newline>'' @ (s @ ''\<newline>'') @ ''---\<newline>'' @ body)"
    and "find_sub ''\<newline>---'' s = None"
    and "l s = Inr fm"
  shows "fst (get_post_content l p w) = Inr (Some (fm, CHR 0x0A # body, length s + 8))"
proof -
  define doc where "doc = ''---\<newline>'' @ s @ ''\<newline>---'' @ (CHR 0x0A # body)"
  have f: "files w p = Some doc"
    using assms(1) by (simp add: doc_def)
  have r: "re_search doc = Some (s, length s + 8)"
    unfolding doc_def by (rule re_search_block [OF assms(2)])
  have dr: "drop (length s + 8) doc = CHR 0x0A # body"
  proof -
    have "doc = (''---\<newline>'' @ s @ ''\<newline>---'') @ (CHR 0x0A # body)"
      by (simp add: doc_def)
    moreover have "length (''---\<newline>'' @ s @ ''\<newline>---'') = length s + 8"
      by simp
    ultimately show ?thesis
      by (metis append_eq_conv_conj)
  qed
  show ?thesis
    by (simp add: get_post_content_def Let_def f r dr assms(3))
qed



section \<open>Two runs in a row\<close>



section \<open>Splitting and trimming\<close>

lemma split_on_nonempty: "split_on sep s \<noteq> []"
  by (induction s) (auto split: list.splits)

lemma split_on_Cons:
  "split_on sep (c # cs) =
     (if c = sep then [] # split_on sep cs
      else (c # hd (split_on sep cs)) # tl (split_on sep cs))"
  using split_on_nonempty [of sep cs] by (cases "split_on sep cs") auto

lemma split_on_filter:
  assumes "P sep"
  shows "split_on sep (filter P s) = map (filter P) (split_on sep s)"
proof (induction s)
  case Nil
  show ?case by simp
next
  case (Cons c cs)
  obtain q qs where q: "split_on sep cs = q # qs"
    using split_on_nonempty [of sep cs] by (cases "split_on sep cs") auto
  show ?case using Cons assms q by auto
qed

lemma split_on_no_sep: "sep \<notin> set ws \<Longrightarrow> split_on sep ws = [ws]"
  by (induction ws) auto

lemma split_on_prepend:
  "sep \<notin> set ws \<Longrightarrow>
     split_on sep (ws @ t) = (ws @ hd (split_on sep t)) # tl (split_on sep t)"
proof (induction ws)
  case Nil
  then show ?case using split_on_nonempty [of sep t] by simp
next
  case (Cons c ws)
  then show ?case by (auto simp del: split_on.simps simp add: split_on_Cons)
qed

lemma split_on_append:
  "sep \<notin> set ws \<Longrightarrow>
     split_on sep (t @ ws) = butlast (split_on sep t) @ [last (split_on sep t) @ ws]"
proof (induction t)
  case Nil
  then show ?case by (simp add: split_on_no_sep)
next
  case (Cons c t)
  obtain q qs where q: "split_on sep t = q # qs"
    using split_on_nonempty [of sep t] by (cases "split_on sep t") auto
  show ?case using Cons q split_on_nonempty [of sep t] by (auto split: list.splits)
qed

lemma split_on_pieces:
  "p \<in> set (split_on sep s) \<Longrightarrow> sep \<notin> set p \<and> set p \<subseteq> set s"
proof (induction s arbitrary: p)
  case Nil
  then show ?case by simp
next
  case (Cons c cs)
  obtain q qs where q: "split_on sep cs = q # qs"
    using split_on_nonempty [of sep cs] by (cases "split_on sep cs") auto
  have 1: "sep \<notin> set q \<and> set q \<subseteq> set cs"
    using Cons.IH [of q] q by simp
  have 2: "r \<in> set qs \<Longrightarrow> sep \<notin> set r \<and> set r \<subseteq> set cs" for r
    using Cons.IH [of r] q by simp
  from Cons.prems q have "p = [] \<and> c = sep \<or> p = c # q \<and> c \<noteq> sep \<or> p = q \<and> c = sep \<or> p \<in> set qs"
    by (auto split: if_splits)
  then show ?case using 1 2 by auto
qed

lemma set_strip: "set (strip s) \<subseteq> set s"
  unfolding strip_def by (metis set_dropWhileD set_rev subsetI)

lemma strip_prepend:
  assumes "\<forall>x \<in> set ws. py_isspace x"
  shows "strip (ws @ p) = strip p"
  using assms by (simp add: strip_def)

lemma strip_append:
  assumes "\<forall>x \<in> set ws. py_isspace x"
  shows "strip (p @ ws) = strip p"
proof (cases "\<forall>x \<in> set p. py_isspace x")
  case True
  then have "dropWhile py_isspace p = []" and "dropWhile py_isspace (p @ ws) = []"
    using assms by (auto simp: dropWhile_eq_Nil_conv)
  then show ?thesis by (metis strip_def)
next
  case False
  then have "dropWhile py_isspace (p @ ws) = dropWhile py_isspace p @ ws"
    by (auto simp: dropWhile_append1)
  moreover have "dropWhile py_isspace (rev ws @ t) = dropWhile py_isspace t" for t
    using assms by (intro dropWhile_append2) auto
  ultimately show ?thesis by (simp add: strip_def)
qed

lemma strip_decompose:
  "\<exists>ws1 ws2. s = ws1 @ strip s @ ws2 \<and> (\<forall>x \<in> set ws1. py_isspace x) \<and> (\<forall>x \<in> set ws2. py_isspace x)"
proof -
  let ?t = "dropWhile py_isspace s"
  have 1: "s = takeWhile py_isspace s @ ?t" by simp
  have 2: "?t = strip s @ rev (takeWhile py_isspace (rev ?t))"
    unfolding strip_def by (metis rev_append rev_rev_ident takeWhile_dropWhile_id)
  have "s = takeWhile py_isspace s @ strip s @ rev (takeWhile py_isspace (rev ?t))"
    using 1 2 by metis
  moreover have "\<forall>x \<in> set (takeWhile py_isspace s). py_isspace x"
    by (auto dest: set_takeWhileD)
  moreover have "\<forall>x \<in> set (rev (takeWhile py_isspace (rev ?t))). py_isspace x"
    by (auto dest: set_takeWhileD)
  ultimately show ?thesis by blast
qed


lemma remove_quotes_filter:
  "remove_quotes s = filter (\<lambda>c. c \<noteq> CHR 0x22 \<and> c \<noteq> CHR 0x27) s"
  by (simp add: remove_quotes_def conj_commute)

lemma remove_quotes_append: "remove_quotes (a @ b) = remove_quotes a @ remove_quotes b"
  by (simp add: remove_quotes_def)

lemma remove_quotes_space:
  "\<forall>x \<in> set ws. py_isspace x \<Longrightarrow> \<forall>x \<in> set (remove_quotes ws). py_isspace x"
  by (simp add: remove_quotes_def)

lemma clean_piece_prepend:
  "\<forall>x \<in> set ws. py_isspace x \<Longrightarrow> clean_piece (ws @ p) = clean_piece p"
  by (simp add: clean_piece_def remove_quotes_append strip_prepend remove_quotes_space)

lemma clean_piece_append:
  "\<forall>x \<in> set ws. py_isspace x \<Longrightarrow> clean_piece (p @ ws) = clean_piece p"
  by (simp add: clean_piece_def remove_quotes_append strip_append remove_quotes_space)

lemma comma_not_space: "\<not> py_isspace CHR '',''"
  by (simp add: py_isspace_def)

lemma clean_pieces_prepend:
  assumes "\<forall>x \<in> set ws. py_isspace x"
  shows "map clean_piece (split_on CHR '','' (ws @ t)) = map clean_piece (split_on CHR '','' t)"
proof -
  have "CHR '','' \<notin> set ws" using assms comma_not_space by blast
  then have "split_on CHR '','' (ws @ t) =
      (ws @ hd (split_on CHR '','' t)) # tl (split_on CHR '','' t)"
    by (rule split_on_prepend)
  then show ?thesis
    using split_on_nonempty [of "CHR '',''" t] assms
    by (cases "split_on CHR '','' t") (simp_all add: clean_piece_prepend)
qed

lemma clean_pieces_append:
  assumes "\<forall>x \<in> set ws. py_isspace x"
  shows "map clean_piece (split_on CHR '','' (t @ ws)) = map clean_piece (split_on CHR '','' t)"
proof -
  have "CHR '','' \<notin> set ws" using assms comma_not_space by blast
  then have "split_on CHR '','' (t @ ws) =
      butlast (split_on CHR '','' t) @ [last (split_on CHR '','' t) @ ws]"
    by (rule split_on_append)
  then have "map clean_piece (split_on CHR '','' (t @ ws)) =
      map clean_piece (butlast (split_on CHR '','' t) @ [last (split_on CHR '','' t)])"
    using assms by (simp add: clean_piece_append)
  then show ?thesis
    using split_on_nonempty [of "CHR '',''" t] by simp
qed

lemma clean_pieces_strip:
  "map clean_piece (split_on CHR '','' (strip s)) = map clean_piece (split_on CHR '','' s)"
proof -
  obtain ws1 ws2 where d: "s = ws1 @ strip s @ ws2"
    and w1: "\<forall>x \<in> set ws1. py_isspace x" and w2: "\<forall>x \<in> set ws2. py_isspace x"
    using strip_decompose by blast
  have "map clean_piece (split_on CHR '','' (ws1 @ strip s @ ws2)) =
        map clean_piece (split_on CHR '','' (strip s))"
    using clean_pieces_prepend [OF w1] clean_pieces_append [OF w2] by simp
  then show ?thesis using d by simp
qed

lemma tags_of_text_pieces: "tags_of_text text = tag_list_by_pieces text"
proof -
  have "split_on CHR '','' (remove_quotes (strip text)) =
        map remove_quotes (split_on CHR '','' (strip text))"
    unfolding remove_quotes_filter by (rule split_on_filter) simp
  then have "map strip (filter (\<lambda>tag. strip tag \<noteq> [])
                 (split_on CHR '','' (remove_quotes (strip text)))) =
             filter (\<lambda>tag. tag \<noteq> []) (map clean_piece (split_on CHR '','' (strip text)))"
    by (simp add: filter_map o_def clean_piece_def)
  then have eq: "map strip (filter (\<lambda>tag. strip tag \<noteq> [])
                 (split_on CHR '','' (remove_quotes (strip text)))) =
             filter (\<lambda>tag. tag \<noteq> []) (map clean_piece (split_on CHR '','' text))"
    by (simp only: clean_pieces_strip)
  show ?thesis
    unfolding tags_of_text_def tag_list_by_pieces_def Let_def eq by (rule refl)
qed


lemma clean_piece_chars:
  assumes "p \<in> set (split_on CHR '','' text)"
  shows "CHR '','' \<notin> set (clean_piece p) \<and> CHR 0x22 \<notin> set (clean_piece p)
         \<and> CHR 0x27 \<notin> set (clean_piece p)"
proof -
  have "set (clean_piece p) \<subseteq> set (remove_quotes p)"
    unfolding clean_piece_def by (rule set_strip)
  moreover have "CHR '','' \<notin> set p"
    using split_on_pieces [OF assms] by simp
  ultimately show ?thesis
    by (auto simp: remove_quotes_def)
qed

section \<open>The worked example, evaluated\<close>

lemma hello_fixture_simps:
  "POST_TO_PROCESS hello_env = Some ''post.md''"
  "GEMINI_API_KEY hello_env = Some ''secret''"
  "files (world_with content) ''post.md'' = Some content"
  "trace (world_with content) = []"
  by (simp_all add: hello_env_def world_with_def)

lemma get_hello:
  "fst (get_post_content hello_load ''post.md'' (world_with hello_post)) =
     Inr (Some (YMap hello_meta, ''\<newline>Body text.'', 20))"
  by (simp add: get_post_content_def world_with_def hello_post_def re_search_def hello_load_def)

lemma get_empty_body:
  "fst (get_post_content hello_load ''post.md'' (world_with empty_body_post)) =
     Inr (Some (YMap hello_meta, [], 20))"
  by (simp add: get_post_content_def world_with_def empty_body_post_def re_search_def hello_load_def)

lemma hello_meta_nonempty: "hello_meta \<noteq> []"
  by (simp add: hello_meta_def)

lemma has_tags_hello: "has_tags (YMap hello_meta) = Inr False"
  by (simp add: has_tags_def GENERATED_TAGS_KEY_def hello_meta_def)

lemma returned_tags_hello: "returned_tags hello_client body = Some [''go'', ''rust'', ''cli'']"
  by (simp add: returned_tags_def hello_client_def tags_of_text_def strip_def remove_quotes_def
        py_isspace_def)

lemma update_post_hello:
  "update_post hello_dump ''post.md'' [''go'', ''rust'', ''cli''] (YMap hello_meta) 20
     (emit e2 (emit e1 (world_with hello_post))) =
   (Inr (),
    \<lparr>files = [''post.md'' \<mapsto>
        ''---\<newline>title: Hello\<newline>llm_tags:\<newline>- go\<newline>- rust\<newline>- cli\<newline>---\<newline>\<newline>Body text.''],
     trace = [e1, e2, OpenRead ''post.md'', OpenWrite ''post.md'']\<rparr>)"
  by (simp add: update_post_def GENERATED_TAGS_KEY_def hello_meta_def hello_dump_def
        hello_tagged_def emit_def world_with_def hello_post_def)

lemma main_hello:
  "main hello_load hello_dump hello_client hello_env (world_with hello_post) =
     (Exit 0,
      \<lparr>files = [''post.md'' \<mapsto>
          ''---\<newline>title: Hello\<newline>llm_tags:\<newline>- go\<newline>- rust\<newline>- cli\<newline>---\<newline>\<newline>Body text.''],
       trace = [OpenRead ''post.md'', Generate (prompt ''\<newline>Body text.''),
                OpenRead ''post.md'', OpenWrite ''post.md'']\<rparr>)"
  by (simp add: main_eq [where p = "''post.md''"] hello_fixture_simps get_hello has_tags_hello
        returned_tags_hello update_post_hello hello_meta_nonempty)

lemma hello_load_mapping:
  assumes "fst (get_post_content hello_load p w) = Inr (Some (fm, body, i))"
  shows "fm = YNull \<or> (\<exists>m. fm = YMap m)"
proof -
  obtain s where "hello_load s = Inr fm"
    using get_post_content_Some [OF assms] by blast
  then show ?thesis by (auto simp: hello_load_def split: if_splits)
qed







section \<open>The target variable set to the text []\<close>

text \<open>
  C9: when POST_TO_PROCESS holds the literal text \<^verbatim>\<open>[]\<close> the run ends as it does when the
  variable is unset: exit code 0 and the world untouched, so no file was opened for
  reading or writing and no request went to the language model.
\<close>

theorem main_no_post:
  "main l d c (env\<lparr>POST_TO_PROCESS := Some ''[]''\<rparr>) w = (Exit 0, w) \<and>
   main l d c (env\<lparr>POST_TO_PROCESS := None\<rparr>) w = (Exit 0, w)"
  by (simp add: main_def)

theorem main_no_post_witness:
  "main hello_load hello_dump hello_client (hello_env\<lparr>POST_TO_PROCESS := Some ''[]''\<rparr>)
      (world_with hello_post) = (Exit 0, world_with hello_post) \<and>
   main hello_load hello_dump hello_client (hello_env\<lparr>POST_TO_PROCESS := None\<rparr>)
      (world_with hello_post) = (Exit 0, world_with hello_post)"
  by (rule main_no_post)

section \<open>Writes to the target file\<close>

text \<open>
  C10: a run opens a file for writing at most once. Either nothing was opened for writing
  and every file has its old contents, or exactly one write happened, and then a target
  file was named and the credential set, the target file was split into front matter and
  body, both passed the guard of line 111, the front matter held no tags yet, the
  generator returned a tag list that is not empty, the run ended with exit code 0 and
  only the target file changed.
\<close>

theorem main_writes_at_most_once:
  "(writes (snd (main l d c env w)) = writes w \<and> files (snd (main l d c env w)) = files w) \<or>
   (writes (snd (main l d c env w)) = Suc (writes w) \<and>
    (\<exists>p fm body i tags new.
        POST_TO_PROCESS env = Some p \<and> p \<noteq> [] \<and> p \<noteq> ''[]'' \<and>
        \<not> unset (GEMINI_API_KEY env) \<and>
        fst (get_post_content l p w) = Inr (Some (fm, body, i)) \<and>
        truthy fm \<and> body \<noteq> [] \<and>
        has_tags fm = Inr False \<and>
        returned_tags c body = Some tags \<and> tags \<noteq> [] \<and>
        fst (main l d c env w) = Exit 0 \<and>
        files (snd (main l d c env w)) = (files w)(p \<mapsto> new)))"
proof (cases "POST_TO_PROCESS env")
  case None
  then show ?thesis by (simp add: main_def)
next
  case (Some p)
  show ?thesis
  proof (cases "p = [] \<or> p = ''[]'' \<or> unset (GEMINI_API_KEY env)")
    case True
    then show ?thesis using Some by (auto simp: main_def)
  next
    case False
    then have ready: "p \<noteq> []" "p \<noteq> ''[]''" "\<not> unset (GEMINI_API_KEY env)"
      by auto
    note m = main_eq [OF Some ready, of l d c w]
    show ?thesis
    proof (cases "fst (get_post_content l p w)")
      case (Inl e)
      then show ?thesis by (simp add: m)
    next
      case (Inr r)
      show ?thesis
      proof (cases r)
        case None
        then show ?thesis using Inr by (simp add: m)
      next
        case (Some t)
        obtain fm body i where t: "t = (fm, body, i)" by (cases t)
        show ?thesis
        proof (cases "\<not> truthy fm \<or> body = [] \<or> has_tags fm \<noteq> Inr False
                   \<or> returned_tags c body = None \<or> returned_tags c body = Some []")
          case True
          then show ?thesis using Inr Some t
            by (auto simp: m split: sum.splits bool.splits option.splits)
        next
          case False
          then obtain tags where tg: "returned_tags c body = Some tags" "tags \<noteq> []"
            by auto
          from update_post_cases[of d p tags fm i "emit (Generate (prompt body)) (emit (OpenRead p) w)"]
          show ?thesis using False Inr Some t tg ready \<open>POST_TO_PROCESS env = Some p\<close>
            by (auto simp: m)
        qed
      qed
    qed
  qed
qed

theorem main_writes_at_most_once_witness:
  "writes (snd (main hello_load hello_dump hello_client hello_env (world_with hello_post))) =
     Suc (writes (world_with hello_post)) \<and>
   returned_tags hello_client ''\<newline>Body text.'' = Some [''go'', ''rust'', ''cli'']"
  using main_writes_at_most_once [of hello_load hello_dump hello_client hello_env "world_with hello_post"]
  unfolding main_hello
  by (simp add: writes_def world_with_def returned_tags_hello)

section \<open>A post without body\<close>

text \<open>
  C4 as stated fails: for the post \<^verbatim>\<open>---\ntitle: Hello\n---\<close>, whose body is empty, the
  splitter succeeds and the run ends with exit code 1.
\<close>

theorem empty_body_counterexample:
  "fst (get_post_content hello_load ''post.md'' (world_with empty_body_post)) =
     Inr (Some (YMap hello_meta, [], 20)) \<and>
   fst (main hello_load hello_dump hello_client hello_env (world_with empty_body_post)) = Exit 1"
  by (simp add: main_eq [where p = "''post.md''"] hello_fixture_simps get_empty_body)

text \<open>
  C4, amended: a post whose body is empty is stopped by the guard of line 111. The run
  ends with exit code 1, sends no request to the generator and opens nothing for writing;
  every file keeps its contents.
\<close>

theorem empty_body_is_fatal:
  assumes "POST_TO_PROCESS env = Some p" and "p \<noteq> []" and "p \<noteq> ''[]''"
    and "\<not> unset (GEMINI_API_KEY env)"
    and "fst (get_post_content l p w) = Inr (Some (fm, [], i))"
  shows "fst (main l d c env w) = Exit 1 \<and>
         files (snd (main l d c env w)) = files w \<and>
         llm_calls (snd (main l d c env w)) = llm_calls w \<and>
         writes (snd (main l d c env w)) = writes w"
  using assms by (simp add: main_eq [where p = p])

theorem empty_body_is_fatal_witness:
  "fst (main hello_load hello_dump hello_client hello_env (world_with empty_body_post)) = Exit 1 \<and>
   files (snd (main hello_load hello_dump hello_client hello_env (world_with empty_body_post))) =
     files (world_with empty_body_post) \<and>
   llm_calls (snd (main hello_load hello_dump hello_client hello_env (world_with empty_body_post))) =
     llm_calls (world_with empty_body_post) \<and>
   writes (snd (main hello_load hello_dump hello_client hello_env (world_with empty_body_post))) =
     writes (world_with empty_body_post)"
  by (rule empty_body_is_fatal [where p = "''post.md''" and fm = "YMap hello_meta" and i = 20])
     (simp_all add: hello_fixture_simps get_empty_body)

section \<open>Exit codes\<close>

text \<open>
  C3 as stated fails: with the credential set and a post that the splitter and the YAML
  loader accept, the run still ends with exit code 1, because the body is empty.
\<close>

theorem exit_status_counterexample:
  "\<not> unset (GEMINI_API_KEY hello_env) \<and>
   re_search empty_body_post = Some (''title: Hello'', 20) \<and>
   hello_load ''title: Hello'' = Inr (YMap hello_meta) \<and>
   exit_status (fst (main hello_load hello_dump hello_client hello_env (world_with empty_body_post))) = 1"
proof -
  have "re_search empty_body_post = Some (''title: Hello'', 20)"
    by (simp add: re_search_def empty_body_post_def)
  moreover have "hello_load ''title: Hello'' = Inr (YMap hello_meta)"
    by (simp add: hello_load_def)
  moreover have "exit_status
      (fst (main hello_load hello_dump hello_client hello_env (world_with empty_body_post))) = 1"
    by (simp add: main_eq [where p = "''post.md''"] hello_fixture_simps get_empty_body)
  ultimately show ?thesis
    by (simp add: hello_fixture_simps)
qed

text \<open>
  C3, amended: take a run whose front matter, when it loads, is null or a mapping. The
  exit code is 0 when no target file is named (unset, empty or the text \<^verbatim>\<open>[]\<close>); otherwise
  1 when the credential is unset or empty; otherwise 1 when the file is missing or has no
  front matter block, when the YAML loader raises, when the loaded front matter is falsy
  (null or an empty mapping) or when the body is empty; and 0 in every other case: tags
  already present, tags written, or the generator failed. The generator does not occur
  on the right-hand side, so a generation failure never gives 1.
\<close>

theorem main_exit_status:
  assumes mapping: "\<And>p fm body i. POST_TO_PROCESS env = Some p \<Longrightarrow>
      fst (get_post_content l p w) = Inr (Some (fm, body, i)) \<Longrightarrow> fm = YNull \<or> (\<exists>m. fm = YMap m)"
  shows "exit_status (fst (main l d c env w)) =
     (case POST_TO_PROCESS env of
        None \<Rightarrow> 0
      | Some p \<Rightarrow>
          if p = [] \<or> p = ''[]'' then 0
          else if unset (GEMINI_API_KEY env) then 1
          else (case fst (get_post_content l p w) of
                  Inl e \<Rightarrow> 1
                | Inr None \<Rightarrow> 1
                | Inr (Some (fm, body, i)) \<Rightarrow> if \<not> truthy fm \<or> body = [] then 1 else 0))"
proof (cases "POST_TO_PROCESS env")
  case None
  then show ?thesis by (simp add: main_def)
next
  case (Some p)
  show ?thesis
  proof (cases "p = [] \<or> p = ''[]'' \<or> unset (GEMINI_API_KEY env)")
    case True
    then show ?thesis using Some by (auto simp: main_def)
  next
    case False
    note m = main_eq [OF Some, of l d c w]
    show ?thesis
    proof (cases "fst (get_post_content l p w)")
      case (Inl e)
      then show ?thesis using False Some by (simp add: m)
    next
      case (Inr r)
      show ?thesis
      proof (cases r)
        case None
        then show ?thesis using False Some Inr by (simp add: m)
      next
        case (Some t)
        obtain fm body i where t: "t = (fm, body, i)" by (cases t)
        have g: "fst (get_post_content l p w) = Inr (Some (fm, body, i))"
          using Inr Some t by simp
        show ?thesis
        proof (cases "\<not> truthy fm \<or> body = []")
          case True
          then show ?thesis using False \<open>POST_TO_PROCESS env = Some p\<close> g by (auto simp: m)
        next
          case ok: False
          then obtain mp where fm: "fm = YMap mp"
            using mapping [OF \<open>POST_TO_PROCESS env = Some p\<close> g] by auto
          obtain b where b: "has_tags fm = Inr b"
            using has_tags_mapping fm by blast
          obtain content where content: "files w p = Some content"
            using get_post_content_Some [OF g] by blast
          have up: "\<And>tags e1 e2.
              (case update_post d p tags fm i (emit e2 (emit e1 w)) of
                 (Inl e, w3) \<Rightarrow> (Uncaught e, w3)
               | (Inr u, w3) \<Rightarrow> (Exit 0, w3)) =
              (Exit 0, snd (update_post d p tags fm i (emit e2 (emit e1 w))))"
            using content fm by (simp add: update_post_def Let_def)
          have "fst (main l d c env w) = Exit 0"
            using False \<open>POST_TO_PROCESS env = Some p\<close> g ok b
            by (simp add: m up split: option.splits bool.splits)
          then show ?thesis
            using False \<open>POST_TO_PROCESS env = Some p\<close> g ok by simp
        qed
      qed
    qed
  qed
qed


theorem main_exit_status_witness:
  "exit_status (fst (main hello_load hello_dump failing_client hello_env (world_with hello_post))) = 0 \<and>
   exit_status (fst (main hello_load hello_dump hello_client hello_env (world_with empty_body_post))) = 1"
  using main_exit_status [where env = hello_env and l = hello_load and w = "world_with hello_post"
          and d = hello_dump and c = failing_client, OF hello_load_mapping]
        main_exit_status [where env = hello_env and l = hello_load and w = "world_with empty_body_post"
          and d = hello_dump and c = hello_client, OF hello_load_mapping]
  by (simp add: hello_fixture_simps get_hello get_empty_body hello_meta_nonempty)

section \<open>The tag list\<close>

text \<open>
  C6 as stated fails: on the response \<^verbatim>\<open>' a '\<close> the script returns the tag \<^verbatim>\<open>a\<close>, while
  splitting on commas, trimming each piece, stripping the quote characters and discarding
  empty pieces gives the tag \<^verbatim>\<open> a \<close> with its blanks. The script removes the quote
  characters before it trims the pieces.
\<close>

theorem tag_list_order_counterexample:
  "fst (call_llm_for_tags spaced_client ''\<newline>Body text.'' (world_with hello_post)) = Some [''a''] \<and>
   claimed_tag_list spaced_response = Some ['' a '']"
  by (simp add: call_llm_for_tags_eq returned_tags_def spaced_client_def spaced_response_def
        tags_of_text_def claimed_tag_list_def claimed_piece_def strip_def remove_quotes_def
        py_isspace_def)

text \<open>
  C6, amended: for every response text the value \<open>call_llm_for_tags\<close> returns is the list
  of the comma-separated pieces of the text, each first stripped of its quote characters
  and then trimmed, without the empty ones; when no piece is left the value is None, never
  an empty list. Every tag returned is a non-empty string and holds no comma and no quote
  character.
\<close>

theorem call_llm_for_tags_tag_list:
  assumes "client (prompt content) = Response text"
  shows "fst (call_llm_for_tags client content w) = tag_list_by_pieces text \<and>
         (\<forall>tags. fst (call_llm_for_tags client content w) = Some tags \<longrightarrow>
            tags \<noteq> [] \<and>
            (\<forall>t \<in> set tags. t \<noteq> [] \<and> CHR '','' \<notin> set t \<and> CHR 0x22 \<notin> set t
                              \<and> CHR 0x27 \<notin> set t))"
proof -
  have r: "fst (call_llm_for_tags client content w) = tag_list_by_pieces text"
    using assms by (simp add: call_llm_for_tags_eq returned_tags_def tags_of_text_pieces)
  have "tags \<noteq> [] \<and>
        (\<forall>t \<in> set tags. t \<noteq> [] \<and> CHR '','' \<notin> set t \<and> CHR 0x22 \<notin> set t \<and> CHR 0x27 \<notin> set t)"
    if "tag_list_by_pieces text = Some tags" for tags
  proof -
    from that have t: "tags = filter (\<lambda>tag. tag \<noteq> []) (map clean_piece (split_on CHR '','' text))"
      and ne: "tags \<noteq> []"
      by (auto simp: tag_list_by_pieces_def Let_def split: if_splits)
    show ?thesis using ne clean_piece_chars [of _ "text"] by (auto simp: t)
  qed
  then show ?thesis using r by simp
qed

theorem call_llm_for_tags_tag_list_witness:
  "fst (call_llm_for_tags quoted_client ''\<newline>Body text.'' (world_with hello_post)) =
     Some [''go'', ''rust'', ''cli''] \<and>
   tag_list_by_pieces quoted_response = Some [''go'', ''rust'', ''cli'']"
proof -
  have c: "quoted_client (prompt ''\<newline>Body text.'') = Response quoted_response"
    by (simp add: quoted_client_def)
  have t: "tag_list_by_pieces quoted_response = Some [''go'', ''rust'', ''cli'']"
    by (simp add: tag_list_by_pieces_def quoted_response_def clean_piece_def strip_def
          remove_quotes_def py_isspace_def)
  show ?thesis
    using call_llm_for_tags_tag_list [of quoted_client "''\<newline>Body text.''" quoted_response
            "world_with hello_post", OF c] t
    by simp
qed

section \<open>Where the reserved key goes\<close>

text \<open>
  C7: take a mapping that does not hold the key \<^verbatim>\<open>llm_tags\<close> yet, and a dumper that, asked
  not to sort, writes a mapping entry by entry in the order of the mapping, as PyYAML
  does. Then the keys of the mapping \<open>update_post\<close> serializes are the old keys in their
  old order followed by \<^verbatim>\<open>llm_tags\<close>, and the front matter it writes is the old entries,
  each as it was written before and in the old order, followed by the entry of
  \<^verbatim>\<open>llm_tags\<close>: nothing is reordered and the new key comes last.
\<close>

theorem update_post_appends_key:
  assumes absent: "YStr GENERATED_TAGS_KEY \<notin> set (map fst m)"
    and present: "files w p = Some content"
    and in_order: "\<And>kvs. kvs \<noteq> [] \<Longrightarrow> d False (YMap kvs) = concat (map render kvs)"
  shows "map fst (dict_setitem m (YStr GENERATED_TAGS_KEY) (YSeq (map YStr tags))) =
           map fst m @ [YStr GENERATED_TAGS_KEY] \<and>
         fst (update_post d p tags (YMap m) i w) = Inr () \<and>
         files (snd (update_post d p tags (YMap m) i w)) p =
           Some (''---\<newline>'' @ concat (map render m)
                 @ render (YStr GENERATED_TAGS_KEY, YSeq (map YStr tags))
                 @ ''---\<newline>'' @ drop i content)"
proof -
  let ?new = "m @ [(YStr GENERATED_TAGS_KEY, YSeq (map YStr tags))]"
  have appended: "dict_setitem m (YStr GENERATED_TAGS_KEY) (YSeq (map YStr tags)) = ?new"
    using absent by (rule dict_setitem_new)
  have "d False (YMap ?new) = concat (map render ?new)"
    by (rule in_order) simp
  then have dump: "d False (YMap ?new) =
      concat (map render m) @ render (YStr GENERATED_TAGS_KEY, YSeq (map YStr tags))"
    by simp
  show ?thesis
    using present by (simp add: update_post_def Let_def appended dump)
qed

theorem update_post_appends_key_witness:
  "map fst (dict_setitem two_key_meta (YStr GENERATED_TAGS_KEY)
              (YSeq (map YStr [''go'', ''rust'', ''cli'']))) =
     [YStr ''title'', YStr ''author'', YStr ''llm_tags''] \<and>
   files (snd (update_post plain_dump ''post.md'' [''go'', ''rust'', ''cli''] (YMap two_key_meta) 32
                 (world_with two_key_post))) ''post.md'' =
     Some ''---\<newline>title: Hello\<newline>author: Ann\<newline>llm_tags:\<newline>- go\<newline>- rust\<newline>- cli\<newline>---\<newline>\<newline>Body text.''"
proof -
  have 1: "YStr GENERATED_TAGS_KEY \<notin> set (map fst two_key_meta)"
    by (simp add: two_key_meta_def GENERATED_TAGS_KEY_def)
  have 2: "files (world_with two_key_post) ''post.md'' = Some two_key_post"
    by (simp add: hello_fixture_simps)
  have 3: "\<And>kvs. kvs \<noteq> [] \<Longrightarrow> plain_dump False (YMap kvs) = concat (map plain_entry kvs)"
    by (simp add: plain_dump_def)
  show ?thesis
    using update_post_appends_key [where m = two_key_meta and w = "world_with two_key_post"
            and p = "''post.md''" and content = two_key_post and d = plain_dump
            and render = plain_entry and tags = "[''go'', ''rust'', ''cli'']" and i = 32,
            OF 1 2 3]
    by (simp add: two_key_meta_def two_key_post_def GENERATED_TAGS_KEY_def)
qed

section \<open>A block that is not at the start\<close>

text \<open>
  C2: the splitter does not insist on a block at the very start of the text. Put any
  line other than \<^verbatim>\<open>---\<close> before a post the splitter accepts: the splitter accepts the
  longer text too, with the same front matter and the same body, the offset moved by the
  length of that line. The comment on line 20 of the script asks for a block at the
  start of the file.
\<close>

theorem get_post_content_block_after_first_line:
  assumes "CHR 0x0A \<notin> set intro" and "intro \<noteq> ''---''"
    and "files w p = Some (intro @ CHR 0x0A # doc)"
    and "fst (get_post_content l p (w\<lparr>files := (files w)(p \<mapsto> doc)\<rparr>)) = Inr (Some (fm, body, i))"
  shows "fst (get_post_content l p w) = Inr (Some (fm, body, i + length intro + 1))"
proof -
  obtain s where s: "re_search doc = Some (s, i)" "l s = Inr fm" "body = drop i doc"
    using get_post_content_Some [OF assms(4)] by auto
  have "re_search (intro @ CHR 0x0A # doc) = Some (s, i + length intro + 1)"
    using re_search_skip_line [OF assms(1,2), of doc] s(1) by simp
  then show ?thesis
    using assms(3) s by (simp add: get_post_content_def Let_def)
qed

theorem get_post_content_block_after_first_line_witness:
  "fst (get_post_content hello_load ''post.md'' (world_with late_block_post)) =
     Inr (Some (YMap hello_meta, ''\<newline>Body text.'', 26))"
proof -
  have 1: "CHR 0x0A \<notin> set ''intro''" and 2: "''intro'' \<noteq> ''---''" by simp_all
  have 3: "files (world_with late_block_post) ''post.md'' = Some (''intro'' @ CHR 0x0A # hello_post)"
    by (simp add: world_with_def late_block_post_def hello_post_def)
  have 4: "fst (get_post_content hello_load ''post.md''
              ((world_with late_block_post)\<lparr>files := (files (world_with late_block_post))(''post.md'' \<mapsto> hello_post)\<rparr>))
           = Inr (Some (YMap hello_meta, ''\<newline>Body text.'', 20))"
    using get_hello by (simp add: world_with_def)
  show ?thesis
    using get_post_content_block_after_first_line [OF 1 2 3 4] by simp
qed

section \<open>Reading back what update_post wrote\<close>

text \<open>
  C1: the body does not survive the cycle. Take a post that splits into a mapping and a
  body, let \<open>update_post\<close> rewrite it, and split the file again. When the dumped front
  matter ends in a newline, holds no line that starts with \<^verbatim>\<open>---\<close> and loads again,
  the second split returns what the dump loads to, and as body a newline followed by the
  first body: \<open>update_post\<close> writes a newline after the closing delimiter although the
  body it copies already starts with the one that was there. The body grows by one
  newline with every rewrite.
\<close>

theorem rewrite_then_split_body:
  assumes "fst (get_post_content l p w) = Inr (Some (YMap m, body, i))"
    and "d False (YMap (dict_setitem m (YStr GENERATED_TAGS_KEY) (YSeq (map YStr tags)))) = s @ ''\<newline>''"
    and "find_sub ''\<newline>---'' s = None"
    and "l s = Inr fm"
  shows "fst (get_post_content l p
                (snd (update_post d p tags (YMap m) i (snd (get_post_content l p w))))) =
           Inr (Some (fm, CHR 0x0A # body, length s + 8)) \<and>
         CHR 0x0A # body \<noteq> body"
proof -
  obtain content where c: "files w p = Some content" "body = drop i content"
    using get_post_content_Some [OF assms(1)] by auto
  let ?w1 = "snd (get_post_content l p w)"
  have "files ?w1 p = Some content"
    using c by (simp add: get_post_content_world)
  then have "files (snd (update_post d p tags (YMap m) i ?w1)) p =
      Some (''---\<newline>'' @ (s @ ''\<newline>'') @ ''---\<newline>'' @ body)"
    using c(2) assms(2) by (simp add: update_post_file)
  then show ?thesis
    using split_rewritten [where l = l and s = s and fm = fm and body = body] assms(3,4) by simp
qed

theorem rewrite_then_split_body_witness:
  "fst (get_post_content hello_load ''post.md'' (world_with hello_post)) =
     Inr (Some (YMap hello_meta, ''\<newline>Body text.'', 20)) \<and>
   fst (get_post_content hello_load ''post.md''
         (snd (update_post hello_dump ''post.md'' [''go'', ''rust'', ''cli''] (YMap hello_meta) 20
                (snd (get_post_content hello_load ''post.md'' (world_with hello_post)))))) =
     Inr (Some (YMap hello_tagged, ''\<newline>\<newline>Body text.'', 48))"
proof -
  have 2: "hello_dump False (YMap (dict_setitem hello_meta (YStr GENERATED_TAGS_KEY)
              (YSeq (map YStr [''go'', ''rust'', ''cli''])))) =
           ''title: Hello\<newline>llm_tags:\<newline>- go\<newline>- rust\<newline>- cli'' @ ''\<newline>''"
    by (simp add: hello_dump_def hello_meta_def hello_tagged_def GENERATED_TAGS_KEY_def)
  have 3: "find_sub ''\<newline>---'' ''title: Hello\<newline>llm_tags:\<newline>- go\<newline>- rust\<newline>- cli'' = None"
    by simp
  have 4: "hello_load ''title: Hello\<newline>llm_tags:\<newline>- go\<newline>- rust\<newline>- cli'' = Inr (YMap hello_tagged)"
    by (simp add: hello_load_def)
  show ?thesis
    using rewrite_then_split_body [where l = hello_load and d = hello_dump and m = hello_meta
            and p = "''post.md''" and w = "world_with hello_post" and i = 20
            and body = "''\<newline>Body text.''" and tags = "[''go'', ''rust'', ''cli'']"
            and s = "''title: Hello\<newline>llm_tags:\<newline>- go\<newline>- rust\<newline>- cli''"
            and fm = "YMap hello_tagged", OF get_hello 2 3 4]
          get_hello
    by simp
qed

section \<open>Posts that already have tags\<close>





end
